theory Spec2Isabelle
  imports Complex_Main "HOL-Library.Finite_Map"
begin

section \<open>The fallback document store (app/db/mongodb.py)\<close>

subsection \<open>Values and documents\<close>

text \<open>
  A document is a Python dict from field names to JSON-like values. Python compares
  dicts without regard to key order, so a dict is a finite map and \<open>==\<close> on the values
  below is equality of the datatype. Booleans and floats are left out of the universe:
  Python has \<open>True == 1\<close>, \<open>1.0 == 1\<close> and \<open>nan != nan\<close>, which no structural equality
  renders.
\<close>

datatype val =
    VNone
  | VInt int
  | VStr string
  | VList "val list"
  | VDict "(string, val) fmap"

type_synonym doc = "(string, val) fmap"

datatype error = TypeError | ValueError | Unmodelled

text \<open>\<open>doc.get(key)\<close>: the value of the field, \<open>None\<close> when the field is absent.\<close>

definition doc_get :: "doc \<Rightarrow> string \<Rightarrow> val" where
  "doc_get d key = (case fmlookup d key of None \<Rightarrow> VNone | Some v \<Rightarrow> v)"

text \<open>
  The matching loop that \<open>find_one\<close>, \<open>update_one\<close> and \<open>find\<close> each spell out:
  \<^verbatim>\<open>
    match = True
    for key, value in query.items():
        if doc.get(key) != value:
            match = False
            break
  \<close>
\<close>

definition doc_matches :: "doc \<Rightarrow> doc \<Rightarrow> bool" where
  "doc_matches query d = fmpred (\<lambda>key v. doc_get d key = v) query"

subsection \<open>Decimal rendering of a length\<close>

function str_nat :: "nat \<Rightarrow> string" where
  "str_nat n =
     (if n < 10 then [''0123456789'' ! n]
      else str_nat (n div 10) @ [''0123456789'' ! (n mod 10)])"
  by pat_completeness auto
termination
  by (relation "measure (\<lambda>n. n)") auto

declare str_nat.simps [simp del]

subsection \<open>FallbackStorage: all collections, the backing file, the error log\<close>

type_synonym db = "(string, doc list) fmap"

text \<open>
  The backing file after a flush: \<open>Saved\<close> holds the image \<open>json.dump\<close> wrote in full;
  \<open>Partial\<close> is a file that \<open>open(..., 'w')\<close> truncated and the dump did not finish.
  The outcome of each flush is an input of the model: \<open>io n\<close> is what the \<open>n\<close>-th call
  of \<open>_save_data\<close> meets.
\<close>

datatype file_state = Absent | Saved db | Partial

datatype io_outcome = Written | OpenFails string | DumpFails string

record storage =
  sdata :: db
  backing_file :: file_state
  io_calls :: nat
  errors :: "string list"

text \<open>
  \<open>_save_data\<close>: the write sits in \<open>try ... except Exception as e: logger.error(...)\<close>,
  so a failure appends an error line and the method returns normally. Only the
  \<open>logger.error\<close> lines are kept in \<open>errors\<close>; debug and info lines are not modelled.
\<close>

definition save_data :: "(nat \<Rightarrow> io_outcome) \<Rightarrow> storage \<Rightarrow> storage" where
  "save_data io st =
     (case io (io_calls st) of
        Written \<Rightarrow> st\<lparr>backing_file := Saved (sdata st), io_calls := io_calls st + 1\<rparr>
      | OpenFails e \<Rightarrow>
          st\<lparr>io_calls := io_calls st + 1,
             errors := errors st @ [''Could not save fallback storage: '' @ e]\<rparr>
      | DumpFails e \<Rightarrow>
          st\<lparr>backing_file := Partial, io_calls := io_calls st + 1,
             errors := errors st @ [''Could not save fallback storage: '' @ e]\<rparr>)"

text \<open>
  \<open>get_collection\<close> creates the list of a collection on first access and hands out a
  \<open>FallbackCollection\<close> that aliases it. A collection object is therefore the storage
  together with the collection's name; \<open>coll\<close> is its \<open>self.data\<close>.
\<close>

definition get_collection :: "string \<Rightarrow> storage \<Rightarrow> storage" where
  "get_collection c st =
     (if c |\<in>| fmdom (sdata st) then st else st\<lparr>sdata := fmupd c [] (sdata st)\<rparr>)"

definition coll :: "storage \<Rightarrow> string \<Rightarrow> doc list" where
  "coll st c = (case fmlookup (sdata st) c of None \<Rightarrow> [] | Some ds \<Rightarrow> ds)"

subsection \<open>FallbackCollection\<close>

text \<open>\<open>find_one\<close>: the first document that matches, as a copy.\<close>

fun find_first :: "doc \<Rightarrow> doc list \<Rightarrow> doc option" where
  "find_first query [] = None"
| "find_first query (d # ds) = (if doc_matches query d then Some d else find_first query ds)"

definition find_one :: "string \<Rightarrow> doc \<Rightarrow> storage \<Rightarrow> doc option" where
  "find_one c query st = find_first query (coll st c)"

text \<open>
  \<open>insert_one\<close>: copy, give the copy an \<open>_id\<close> when it has none
  (\<open>f"doc_{len(self.data) + 1}_{datetime.now().timestamp()}"\<close>, the rendered timestamp
  being the input \<open>ts\<close>), append, flush.
\<close>

definition with_id :: "doc \<Rightarrow> nat \<Rightarrow> string \<Rightarrow> doc" where
  "with_id document n ts =
     (if ''_id'' |\<in>| fmdom document then document
      else fmupd ''_id'' (VStr (''doc_'' @ str_nat (n + 1) @ ''_'' @ ts)) document)"

definition insert_one ::
  "(nat \<Rightarrow> io_outcome) \<Rightarrow> string \<Rightarrow> doc \<Rightarrow> string \<Rightarrow> storage \<Rightarrow> storage" where
  "insert_one io c document ts st =
     save_data io
       (st\<lparr>sdata := fmupd c (coll st c @ [with_id document (length (coll st c)) ts]) (sdata st)\<rparr>)"

text \<open>
  The fields an update merges: the operand of \<open>$set\<close> when the update has one, the
  whole update otherwise. Every caller in the repository passes a dict as the operand.
  On another operand \<open>dict.update\<close> raises \<open>TypeError\<close> when it cannot be iterated
  (\<open>None\<close>, a number), merges nothing when it is empty, and raises \<open>ValueError\<close> on a
  non-empty string (its first element has length 1, not 2), in each case before it
  changes anything. A non-empty list is read as a sequence of key/value pairs: it may
  be merged (with keys that need not be strings), be refused at an element that is no
  pair, or be refused after some pairs went in. Documents with such keys and half-made
  updates are outside this model. Such an operand is marked \<open>Unmodelled\<close>: the mark
  stands for no behaviour of the code, and no statement below is about an update
  that carries it beyond the paths that never read the operand.
\<close>

definition update_fields :: "doc \<Rightarrow> error + doc" where
  "update_fields update =
     (case fmlookup update ''$set'' of
        None \<Rightarrow> Inr update
      | Some operand \<Rightarrow>
          (case operand of
             VDict s \<Rightarrow> Inr s
           | VNone \<Rightarrow> Inl TypeError
           | VInt n \<Rightarrow> Inl TypeError
           | VStr str \<Rightarrow> if str = [] then Inr fmempty else Inl ValueError
           | VList xs \<Rightarrow> if xs = [] then Inr fmempty else Inl Unmodelled))"

text \<open>
  The loop of \<open>update_one\<close>: the first matching document is merged with the fields and
  stamped with \<open>updated_at\<close> (the rendered \<open>datetime.utcnow()\<close>, the input \<open>now\<close>);
  \<open>Inr None\<close> is the loop ending with \<open>found = False\<close>.
\<close>

fun update_loop :: "doc \<Rightarrow> doc \<Rightarrow> string \<Rightarrow> doc list \<Rightarrow> error + doc list option" where
  "update_loop query update now [] = Inr None"
| "update_loop query update now (d # ds) =
     (if doc_matches query d then
        (case update_fields update of
           Inl e \<Rightarrow> Inl e
         | Inr s \<Rightarrow> Inr (Some (fmupd ''updated_at'' (VStr now) (d ++\<^sub>f s) # ds)))
      else
        (case update_loop query update now ds of
           Inl e \<Rightarrow> Inl e
         | Inr None \<Rightarrow> Inr None
         | Inr (Some ds') \<Rightarrow> Inr (Some (d # ds'))))"

text \<open>
  \<open>update_one\<close> has no \<open>return\<close>: on every path that does not raise it returns \<open>None\<close>,
  the first component of the result. An upsert inserts through \<open>insert_one\<close> (which
  flushes) and then flushes once more.
\<close>

definition update_one ::
  "(nat \<Rightarrow> io_outcome) \<Rightarrow> string \<Rightarrow> doc \<Rightarrow> doc \<Rightarrow> bool \<Rightarrow> string \<Rightarrow> string \<Rightarrow> storage
    \<Rightarrow> error + (val \<times> storage)" where
  "update_one io c query update upsert now ts st =
     (case update_loop query update now (coll st c) of
        Inl e \<Rightarrow> Inl e
      | Inr (Some ds') \<Rightarrow> Inr (VNone, save_data io (st\<lparr>sdata := fmupd c ds' (sdata st)\<rparr>))
      | Inr None \<Rightarrow>
          (if upsert then
             (case update_fields update of
                Inl e \<Rightarrow> Inl e
              | Inr s \<Rightarrow> Inr (VNone, save_data io (insert_one io c (query ++\<^sub>f s) ts st)))
           else Inr (VNone, st)))"

text \<open>
  \<open>find\<close> (\<open>find_docs\<close> here, \<open>find\<close> being a function on lists already): all documents
  when the query is \<open>None\<close>, the matching ones otherwise.
\<close>

definition find_docs :: "string \<Rightarrow> doc option \<Rightarrow> storage \<Rightarrow> doc list" where
  "find_docs c query st =
     (case query of None \<Rightarrow> coll st c | Some q \<Rightarrow> filter (doc_matches q) (coll st c))"

subsection \<open>save_plan, in fallback mode\<close>

text \<open>
  \<open>FallbackStorage.__init__\<close> with no backing file on disk.
\<close>

definition empty_storage :: storage where
  "empty_storage = \<lparr>sdata = fmempty, backing_file = Absent, io_calls = 0, errors = []\<rparr>"

text \<open>
  \<open>plan_data.get(key, default)\<close> inside an f-string: the default when the field is
  absent, Python's \<open>str\<close> of the value otherwise. \<open>str\<close> is the parameter \<open>fmt\<close>.
\<close>

definition get_or :: "(val \<Rightarrow> string) \<Rightarrow> doc \<Rightarrow> string \<Rightarrow> string \<Rightarrow> string" where
  "get_or fmt d key dflt = (case fmlookup d key of None \<Rightarrow> dflt | Some v \<Rightarrow> fmt v)"

definition plan_id :: "(val \<Rightarrow> string) \<Rightarrow> doc \<Rightarrow> string" where
  "plan_id fmt plan_data =
     ''plan_'' @ get_or fmt plan_data ''date'' ''unknown'' @ ''_''
       @ get_or fmt plan_data ''location'' ''unknown'' @ ''_''
       @ get_or fmt plan_data ''user_id'' ''default''"

text \<open>
  \<open>save_plan\<close> with the fallback backend active (\<open>get_collection\<close> then never returns
  \<open>None\<close>). The body is one \<open>try\<close>; \<open>except Exception\<close> logs (the text of the exception
  is not kept) and returns \<open>False\<close>. An exception of \<open>update_one\<close> arises before it
  changes anything, so the storage of that branch is the one the call started from.
  \<open>now\<close> is the \<open>utcnow\<close> read of \<open>save_plan\<close>, \<open>now'\<close> the one \<open>update_one\<close> makes on a
  match. \<open>plan_with_id\<close> is the statement that fills in a missing \<open>_id\<close>. The result is
  the returned boolean and the storage.
\<close>

definition plan_with_id :: "(val \<Rightarrow> string) \<Rightarrow> doc \<Rightarrow> doc" where
  "plan_with_id fmt plan_data =
     (if ''_id'' |\<in>| fmdom plan_data then plan_data
      else fmupd ''_id'' (VStr (plan_id fmt plan_data)) plan_data)"

definition save_plan ::
  "(val \<Rightarrow> string) \<Rightarrow> (nat \<Rightarrow> io_outcome) \<Rightarrow> doc \<Rightarrow> string \<Rightarrow> string \<Rightarrow> string \<Rightarrow> storage
    \<Rightarrow> bool \<times> storage" where
  "save_plan fmt io plan_data0 now now' ts st0 =
     (let st = get_collection ''plans'' st0;
          plan_data = fmupd ''updated_at'' (VStr now) (plan_with_id fmt plan_data0)
      in case update_one io ''plans''
                (fmupd ''_id'' (doc_get plan_data ''_id'') fmempty)
                (fmupd ''$set'' (VDict plan_data) fmempty) True now' ts st of
           Inl e \<Rightarrow> (False, st\<lparr>errors := errors st @ [''Failed to save plan'']\<rparr>)
         | Inr (r, st') \<Rightarrow> (True, st'))"

subsection \<open>The collection with its documents as shared objects\<close>

text \<open>
  Whether a caller can reach a stored document through a result depends on which dict
  objects are shared. Here the dict objects live in a heap (an address is an index into
  it) and \<open>self.data\<close> is a list of addresses. \<open>doc.copy()\<close> allocates a new object with
  the same fields; \<open>self.data.copy()\<close> is a new list of the same addresses.
\<close>

type_synonym addr = nat

record ref_collection =
  heap :: "doc list"
  rdata :: "addr list"

fun find_first_ref :: "doc list \<Rightarrow> doc \<Rightarrow> addr list \<Rightarrow> addr option" where
  "find_first_ref h query [] = None"
| "find_first_ref h query (a # as) =
     (if doc_matches query (h ! a) then Some a else find_first_ref h query as)"

definition find_one_ref :: "doc \<Rightarrow> ref_collection \<Rightarrow> addr option \<times> ref_collection" where
  "find_one_ref query rc =
     (case find_first_ref (heap rc) query (rdata rc) of
        None \<Rightarrow> (None, rc)
      | Some a \<Rightarrow> (Some (length (heap rc)), rc\<lparr>heap := heap rc @ [heap rc ! a]\<rparr>))"

text \<open>The loop of \<open>find\<close> with a query: \<open>results.append(doc.copy())\<close> for each match.\<close>

fun copy_matching :: "doc \<Rightarrow> addr list \<Rightarrow> doc list \<Rightarrow> addr list \<times> doc list" where
  "copy_matching query [] h = ([], h)"
| "copy_matching query (a # as) h =
     (if doc_matches query (h ! a) then
        (let (rs, h') = copy_matching query as (h @ [h ! a]) in (length h # rs, h'))
      else copy_matching query as h)"

definition find_ref :: "doc option \<Rightarrow> ref_collection \<Rightarrow> addr list \<times> ref_collection" where
  "find_ref query rc =
     (case query of
        None \<Rightarrow> (rdata rc, rc)
      | Some q \<Rightarrow>
          (let (rs, h') = copy_matching q (rdata rc) (heap rc) in (rs, rc\<lparr>heap := h'\<rparr>)))"

text \<open>What a caller does to a document it was handed: \<open>doc[key] = value\<close>.\<close>

definition setitem :: "addr \<Rightarrow> string \<Rightarrow> val \<Rightarrow> ref_collection \<Rightarrow> ref_collection" where
  "setitem a key v rc = rc\<lparr>heap := (heap rc)[a := fmupd key v (heap rc ! a)]\<rparr>"

text \<open>The stored documents, read through the heap; every stored address is allocated.\<close>

definition contents :: "ref_collection \<Rightarrow> doc list" where
  "contents rc = map ((!) (heap rc)) (rdata rc)"

definition wf_refs :: "ref_collection \<Rightarrow> bool" where
  "wf_refs rc = list_all (\<lambda>a. a < length (heap rc)) (rdata rc)"

section \<open>The custom scheduler (app/tasks/scheduler.py)\<close>

text \<open>
  Times are \<open>time.time()\<close> readings: doubles, which are real numbers. The sum of two of
  them that the code computes is a rounded one, and the rounding is not modelled:
  Python's addition of floats is the parameter \<open>fadd\<close> of every function that adds, so
  what is proved holds of any addition, the one of doubles included. A job's action is
  an opaque callable; what the scheduler sees of a run is whether it returns or raises
  an \<open>Exception\<close>, which may depend on when it is started. An action that never returns,
  or that raises outside \<open>Exception\<close>, is not modelled.
\<close>

datatype outcome = Returns | Raises string

record job =
  func :: "real \<Rightarrow> outcome"
  interval :: real
  job_id :: string
  last_run :: "real option"
  next_run :: real
  enabled :: bool

record scheduler =
  tasks :: "job list"
  running :: bool
  start_time :: real

text \<open>\<open>CustomScheduler.__init__\<close>; \<open>now\<close> is its \<open>time.time()\<close> read.\<close>

definition new_scheduler :: "real \<Rightarrow> scheduler" where
  "new_scheduler now = \<lparr>tasks = [], running = False, start_time = now\<rparr>"

text \<open>
  \<open>add_job\<close>; \<open>now\<close> is its one \<open>time.time()\<close> read. The \<open>trigger\<close> argument is never
  used by the body and is left out. \<open>id or f"job_{len(self.tasks)}"\<close> takes the generated
  name for \<open>None\<close> and for the empty string.
\<close>

definition add_job ::
  "(real \<Rightarrow> real \<Rightarrow> real) \<Rightarrow> (real \<Rightarrow> outcome) \<Rightarrow> real \<Rightarrow> string option \<Rightarrow> real \<Rightarrow> scheduler
    \<Rightarrow> scheduler" where
  "add_job fadd f seconds ident now s =
     s\<lparr>tasks := tasks s @
        [\<lparr>func = f, interval = seconds,
          job_id = (case ident of
                      None \<Rightarrow> ''job_'' @ str_nat (length (tasks s))
                    | Some i \<Rightarrow> if i = [] then ''job_'' @ str_nat (length (tasks s)) else i),
          last_run = None, next_run = fadd now seconds, enabled = True\<rparr>]\<rparr>"

text \<open>
  What a run of the loop leaves behind besides the jobs: the logger's lines and the
  calls of the actions, in order, and the number of clock readings taken so far
  (\<open>clock n\<close> is the \<open>n\<close>-th reading of \<open>time.time()\<close>). \<open>Invoke\<close> is the call of a job's
  \<open>func\<close>; it carries the job's name and what \<open>job_info\<close> holds as \<open>last_run\<close> and
  \<open>next_run\<close> at the moment of the call.
\<close>

datatype event = Info string | Debug string | Error string | Invoke string "real option" real

record runtime =
  reads :: nat
  trace :: "event list"

text \<open>\<open>_run_job\<close>: two clock readings, one for \<open>last_run\<close> and one for \<open>next_run\<close>.\<close>

definition run_job ::
  "(real \<Rightarrow> real \<Rightarrow> real) \<Rightarrow> (nat \<Rightarrow> real) \<Rightarrow> job \<Rightarrow> runtime \<Rightarrow> job \<times> runtime" where
  "run_job fadd clock job_info rt =
     (if \<not> enabled job_info then (job_info, rt)
      else
        let rt1 = rt\<lparr>trace := trace rt @ [Debug (''Running job: '' @ job_id job_info)]\<rparr>;
            job1 = job_info\<lparr>last_run := Some (clock (reads rt1))\<rparr>;
            rt2 = rt1\<lparr>reads := reads rt1 + 1\<rparr>;
            job2 = job1\<lparr>next_run := fadd (clock (reads rt2)) (interval job1)\<rparr>;
            rt3 = rt2\<lparr>reads := reads rt2 + 1,
                     trace := trace rt2 @ [Invoke (job_id job2) (last_run job2) (next_run job2)]\<rparr>
        in case func job2 (clock (reads rt2)) of
             Returns \<Rightarrow>
               (job2, rt3\<lparr>trace := trace rt3 @ [Debug (''Completed job: '' @ job_id job2)]\<rparr>)
           | Raises e \<Rightarrow>
               (job2, rt3\<lparr>trace := trace rt3 @
                          [Error (''Job '' @ job_id job2 @ '' failed: '' @ e)]\<rparr>))"

text \<open>The test of the scan: \<open>job['enabled'] and current_time >= job['next_run']\<close>.\<close>

definition due :: "real \<Rightarrow> job \<Rightarrow> bool" where
  "due current_time j = (enabled j \<and> current_time \<ge> next_run j)"






section \<open>Concrete inputs\<close>

text \<open>
  Flushes that all succeed, and flushes that all fail at \<open>open\<close>; a storage whose
  collection \<open>c\<close> holds the given documents, and one whose collection \<open>plans\<close> does;
  a clock that advances by 1/1024 of a second per reading, and one that stands still;
  a job that is due under these clocks; a runtime that has read nothing yet; a
  collection object holding the one document \<open>{"a": 1}\<close>; addition without rounding.
  The times and intervals used with it are small multiples of 1/1024, so each of their
  sums is a double and the addition of doubles gives exactly what \<open>exact_add\<close> gives.
\<close>

definition io_ok :: "nat \<Rightarrow> io_outcome" where
  "io_ok = (\<lambda>n. Written)"

definition io_disk_full :: "nat \<Rightarrow> io_outcome" where
  "io_disk_full = (\<lambda>n. OpenFails ''disk full'')"

definition store_of :: "doc list \<Rightarrow> storage" where
  "store_of ds = \<lparr>sdata = fmupd ''c'' ds fmempty, backing_file = Absent, io_calls = 0, errors = []\<rparr>"

definition plans_of :: "doc list \<Rightarrow> storage" where
  "plans_of ds = \<lparr>sdata = fmupd ''plans'' ds fmempty, backing_file = Absent, io_calls = 0, errors = []\<rparr>"

definition exact_add :: "real \<Rightarrow> real \<Rightarrow> real" where
  "exact_add a b = a + b"

text \<open>
  Addition rounded to the nearest multiple of \<open>u\<close>. From \<open>2 ^ 30\<close> up to \<open>2 ^ 31\<close> the
  doubles are the multiples of \<open>1 / 2 ^ 22\<close>, so a sum that falls there, and not halfway
  between two of them, is added by doubles as \<open>grid_add (1 / 2 ^ 22)\<close> adds it.
\<close>

definition grid_add :: "real \<Rightarrow> real \<Rightarrow> real \<Rightarrow> real" where
  "grid_add u a b = u * of_int (round ((a + b) / u))"





definition rc_one :: ref_collection where
  "rc_one = \<lparr>heap = [fmupd ''a'' (VInt 1) fmempty], rdata = [0]\<rparr>"

section \<open>Facts about the store\<close>

subsection \<open>Matching, reads and iteration\<close>

lemma doc_matches_iff:
  "doc_matches query d \<longleftrightarrow> (\<forall>k v. fmlookup query k = Some v \<longrightarrow> doc_get d k = v)"
  by (simp add: doc_matches_def fmpred_iff)

lemma id_query_matches:
  "doc_matches (fmupd ''_id'' v fmempty) d = (doc_get d ''_id'' = v)"
  by (auto simp: doc_matches_iff)

lemma coll_upd: "coll (st\<lparr>sdata := fmupd c ds m\<rparr>) c = ds"
  by (simp add: coll_def)

lemma coll_save_data: "coll (save_data io st) c = coll st c"
  by (simp add: coll_def save_data_def split: io_outcome.splits)

lemma sdata_save_data: "sdata (save_data io st) = sdata st"
  by (simp add: save_data_def split: io_outcome.splits)

lemma io_calls_save_data: "io_calls (save_data io st) = io_calls st + 1"
  by (simp add: save_data_def split: io_outcome.splits)

lemma coll_insert_one:
  "coll (insert_one io c document ts st) c = coll st c @ [with_id document (length (coll st c)) ts]"
  by (simp add: insert_one_def coll_save_data coll_upd)

lemma coll_get_collection: "coll (get_collection c' st) c = coll st c"
  by (auto simp: coll_def get_collection_def fmdom_notD)

lemma io_calls_get_collection: "io_calls (get_collection c st) = io_calls st"
  by (simp add: get_collection_def)

lemma errors_get_collection: "errors (get_collection c st) = errors st"
  by (simp add: get_collection_def)

lemmas store_simps =
  coll_upd coll_save_data sdata_save_data io_calls_save_data coll_insert_one coll_get_collection
  io_calls_get_collection errors_get_collection

lemma errors_save_data_mono: "set (errors st) \<subseteq> set (errors (save_data io st))"
  by (auto simp: save_data_def split: io_outcome.splits)

lemma save_data_failure_logged:
  "io (io_calls st) = OpenFails e \<or> io (io_calls st) = DumpFails e \<Longrightarrow>
   ''Could not save fallback storage: '' @ e \<in> set (errors (save_data io st))"
  by (auto simp: save_data_def)

lemma find_first_append_miss:
  "\<forall>d\<in>set ds. \<not> doc_matches q d \<Longrightarrow> find_first q (ds @ es) = find_first q es"
  by (induction ds) auto

lemma find_first_None_iff: "(find_first q ds = None) = (\<forall>d\<in>set ds. \<not> doc_matches q d)"
  by (induction ds) auto

lemma update_loop_no_match:
  "\<forall>d\<in>set ds. \<not> doc_matches q d \<Longrightarrow> update_loop q u now ds = Inr None"
  by (induction ds) auto

lemma update_loop_None_iff: "(update_loop q u now ds = Inr None) = (\<forall>d\<in>set ds. \<not> doc_matches q d)"
  by (induction ds) (auto split: sum.splits option.splits)

lemma update_loop_match:
  assumes "update_fields u = Inr s" and "\<exists>d\<in>set ds. doc_matches q d"
  shows "\<exists>ds'. update_loop q u now ds = Inr (Some ds') \<and> length ds' = length ds"
  using assms(2)
proof (induction ds)
  case Nil
  then show ?case by simp
next
  case (Cons a ds)
  show ?case
  proof (cases "doc_matches q a")
    case True
    then show ?thesis using assms(1) by simp
  next
    case False
    with Cons.prems have "\<exists>d\<in>set ds. doc_matches q d" by auto
    then obtain ds' where "update_loop q u now ds = Inr (Some ds')" "length ds' = length ds"
      using Cons.IH by blast
    then show ?thesis using False by simp
  qed
qed

lemma update_loop_not_Inl:
  "update_fields u = Inr s \<Longrightarrow> update_loop q u now ds \<noteq> Inl e"
  by (induction ds) (auto split: sum.splits option.splits)

lemma update_loop_Inl:
  "update_loop q u now ds = Inl e \<Longrightarrow> update_fields u = Inl e"
  by (induction ds) (auto split: if_splits sum.splits option.splits)

lemma update_loop_Some_shape:
  assumes "update_fields u = Inr s" "update_loop q u now ds = Inr (Some ds')"
  shows "\<exists>pre d post. ds = pre @ d # post \<and> (\<forall>x\<in>set pre. \<not> doc_matches q x) \<and> doc_matches q d
           \<and> ds' = pre @ fmupd ''updated_at'' (VStr now) (d ++\<^sub>f s) # post"
  using assms(2)
proof (induction ds arbitrary: ds')
  case Nil
  then show ?case by simp
next
  case (Cons a ds)
  show ?case
  proof (cases "doc_matches q a")
    case True
    with Cons.prems assms(1) have "ds' = fmupd ''updated_at'' (VStr now) (a ++\<^sub>f s) # ds" by simp
    with True show ?thesis by (intro exI [of _ "[]"] exI [of _ a] exI [of _ ds]) simp
  next
    case False
    with Cons.prems obtain es where es: "update_loop q u now ds = Inr (Some es)" "ds' = a # es"
      by (auto split: sum.splits option.splits)
    from Cons.IH [OF es(1)] obtain pre d post where
      "ds = pre @ d # post" "\<forall>x\<in>set pre. \<not> doc_matches q x" "doc_matches q d"
      "es = pre @ fmupd ''updated_at'' (VStr now) (d ++\<^sub>f s) # post" by blast
    with False es(2) show ?thesis
      by (intro exI [of _ "a # pre"] exI [of _ d] exI [of _ post]) simp
  qed
qed

lemma update_one_cases:
  assumes "update_fields u = Inr s"
  shows "(\<exists>ds'. update_loop q u now (coll st c) = Inr (Some ds')
            \<and> update_one io c q u upsert now ts st = Inr (VNone, save_data io (st\<lparr>sdata := fmupd c ds' (sdata st)\<rparr>)))
       \<or> (update_loop q u now (coll st c) = Inr None \<and> upsert
            \<and> update_one io c q u upsert now ts st = Inr (VNone, save_data io (insert_one io c (q ++\<^sub>f s) ts st)))
       \<or> (update_loop q u now (coll st c) = Inr None \<and> \<not> upsert
            \<and> update_one io c q u upsert now ts st = Inr (VNone, st))"
proof (cases "update_loop q u now (coll st c)")
  case (Inl e)
  with update_loop_not_Inl [OF assms] show ?thesis by blast
next
  case (Inr r)
  then show ?thesis using assms by (cases r) (auto simp: update_one_def)
qed

lemma merged_matches:
  assumes "doc_matches q (q ++\<^sub>f s)"
  shows "doc_matches q (with_id (q ++\<^sub>f s) n ts)"
proof (cases "''_id'' |\<in>| fmdom (q ++\<^sub>f s)")
  case True
  then show ?thesis using assms by (simp add: with_id_def)
next
  case False
  then have noid: "fmlookup q ''_id'' = None"
    by (simp add: fmdom_notD)
  have "doc_get (fmupd ''_id'' w (q ++\<^sub>f s)) k = v" if "fmlookup q k = Some v" for k v w
  proof -
    from that noid have "k \<noteq> ''_id''" by auto
    then have "doc_get (fmupd ''_id'' w (q ++\<^sub>f s)) k = doc_get (q ++\<^sub>f s) k"
      by (simp add: doc_get_def)
    with assms that show ?thesis by (simp add: doc_matches_iff)
  qed
  then show ?thesis using False by (simp add: with_id_def doc_matches_iff)
qed

lemma plan_with_id_has_id: "''_id'' |\<in>| fmdom (plan_with_id fmt pd)"
  by (simp add: plan_with_id_def)

subsection \<open>Upsert\<close>

text \<open>
  Claim C2, as the code has it. When no document of the collection matches \<open>q\<close> and the
  operand of \<open>$set\<close> (if any) is a mapping, \<open>update_one(q, u, upsert=True)\<close> returns
  \<open>None\<close> and appends exactly one document: \<open>q\<close> overwritten and extended by the fields
  of \<open>u\<close> (the operand of \<open>$set\<close> when present), with a generated \<open>_id\<close> when neither has
  one (so apart from \<open>_id\<close> each field is the one of \<open>u\<close> if \<open>u\<close> has it and the one of \<open>q\<close>
  otherwise). If that merged document still matches \<open>q\<close>, that is, \<open>u\<close> changes no field that \<open>q\<close>
  names, a second call with the same \<open>q\<close> and \<open>u\<close> (at any later time) finds it and adds
  no document.
\<close>

theorem upsert_creates_one_document:
  assumes nomatch: "\<forall>d\<in>set (coll st c). \<not> doc_matches q d"
    and fields: "update_fields u = Inr s"
  shows "\<exists>st1. update_one io c q u True now ts st = Inr (VNone, st1)
           \<and> coll st1 c = coll st c @ [with_id (q ++\<^sub>f s) (length (coll st c)) ts]
           \<and> (\<forall>k. k \<noteq> ''_id'' \<longrightarrow>
                  fmlookup (with_id (q ++\<^sub>f s) (length (coll st c)) ts) k
                    = (if k |\<in>| fmdom s then fmlookup s k else fmlookup q k))
           \<and> ''_id'' |\<in>| fmdom (with_id (q ++\<^sub>f s) (length (coll st c)) ts)
           \<and> (doc_matches q (q ++\<^sub>f s) \<longrightarrow>
                (\<exists>st2. update_one io c q u True now' ts' st1 = Inr (VNone, st2)
                   \<and> length (coll st2 c) = length (coll st c) + 1))"
proof -
  let ?new = "with_id (q ++\<^sub>f s) (length (coll st c)) ts"
  let ?st1 = "save_data io (insert_one io c (q ++\<^sub>f s) ts st)"
  have first: "update_one io c q u True now ts st = Inr (VNone, ?st1)"
    using nomatch fields by (simp add: update_one_def update_loop_no_match)
  have data1: "coll ?st1 c = coll st c @ [?new]" by (simp add: store_simps)
  have union: "\<forall>k. k \<noteq> ''_id'' \<longrightarrow>
      fmlookup ?new k = (if k |\<in>| fmdom s then fmlookup s k else fmlookup q k)"
    by (simp add: with_id_def)
  have ident: "''_id'' |\<in>| fmdom ?new"
    by (simp add: with_id_def)
  have second: "\<exists>st2. update_one io c q u True now' ts' ?st1 = Inr (VNone, st2)
                   \<and> length (coll st2 c) = length (coll st c) + 1"
    if "doc_matches q (q ++\<^sub>f s)"
  proof -
    from that have "doc_matches q ?new" by (rule merged_matches)
    then have "\<exists>d\<in>set (coll ?st1 c). doc_matches q d" by (simp add: data1)
    from update_loop_match [OF fields this, of now']
    obtain ds' where ds': "update_loop q u now' (coll ?st1 c) = Inr (Some ds')"
      "length ds' = length (coll ?st1 c)" by blast
    then show ?thesis by (simp add: store_simps update_one_def)
  qed
  show ?thesis using first data1 union ident second by blast
qed

theorem upsert_creates_one_document_witness:
  "\<exists>st1. update_one io_ok ''c'' (fmupd ''name'' (VStr ''x'') fmempty)
            (fmupd ''$set'' (VDict (fmupd ''value'' (VInt 1) fmempty)) fmempty) True ''n1'' ''t1'' empty_storage
            = Inr (VNone, st1)
     \<and> length (coll st1 ''c'') = 1
     \<and> (\<exists>st2. update_one io_ok ''c'' (fmupd ''name'' (VStr ''x'') fmempty)
            (fmupd ''$set'' (VDict (fmupd ''value'' (VInt 1) fmempty)) fmempty) True ''n2'' ''t2'' st1
            = Inr (VNone, st2) \<and> length (coll st2 ''c'') = 1)"
proof -
  have a: "\<forall>d\<in>set (coll empty_storage ''c''). \<not> doc_matches (fmupd ''name'' (VStr ''x'') fmempty) d"
    by (simp add: store_of_def empty_storage_def coll_def doc_matches_def fmpred_iff doc_get_def)
  have b: "update_fields (fmupd ''$set'' (VDict (fmupd ''value'' (VInt 1) fmempty)) fmempty)
      = Inr (fmupd ''value'' (VInt 1) fmempty)"
    by (simp add: update_fields_def)
  have c: "doc_matches (fmupd ''name'' (VStr ''x'') fmempty)
      (fmupd ''name'' (VStr ''x'') fmempty ++\<^sub>f fmupd ''value'' (VInt 1) fmempty)"
    by (simp add: store_of_def empty_storage_def coll_def doc_matches_def fmpred_iff doc_get_def)
  have d: "coll empty_storage ''c'' = []" by (simp add: coll_def empty_storage_def)
  show ?thesis
    using upsert_creates_one_document [OF a b, of io_ok "''n1''" "''t1''" "''n2''" "''t2''"] c d
    by auto
qed

text \<open>
  The claim as written fails when \<open>u\<close> overwrites a field of \<open>q\<close>: with \<open>q = {"a": 1}\<close> and
  \<open>u = {"a": 2}\<close> the document created is \<open>{"a": 2, "_id": ...}\<close>, which \<open>q\<close> does not
  match, so the second call creates a second document.
\<close>

theorem upsert_twice_counterexample:
  "\<not> isl (update_one io_ok ''c'' (fmupd ''a'' (VInt 1) fmempty) (fmupd ''a'' (VInt 2) fmempty) True
             ''n1'' ''t1'' empty_storage)
   \<and> length (coll (snd (projr
        (update_one io_ok ''c'' (fmupd ''a'' (VInt 1) fmempty) (fmupd ''a'' (VInt 2) fmempty) True
           ''n2'' ''t2''
           (snd (projr
              (update_one io_ok ''c'' (fmupd ''a'' (VInt 1) fmempty) (fmupd ''a'' (VInt 2) fmempty) True
                 ''n1'' ''t1'' empty_storage)))))) ''c'') = 2"
  by code_simp

subsection \<open>Update without a match\<close>

text \<open>
  Claim C6. When no document matches \<open>q\<close>, \<open>update_one(q, u, upsert=False)\<close> does not
  raise, leaves the whole storage as it was (documents, count, file, flush counter,
  log) and returns \<open>None\<close>; an update that does find a match returns \<open>None\<close> as well, so
  the return value tells the two apart in no way.
\<close>

theorem update_one_no_match_no_upsert:
  assumes "\<forall>d\<in>set (coll st c). \<not> doc_matches q d"
  shows "update_one io c q u False now ts st = Inr (VNone, st)
       \<and> (\<forall>st0 s. update_fields u = Inr s \<longrightarrow> (\<exists>d\<in>set (coll st0 c). doc_matches q d) \<longrightarrow>
             (\<exists>st'. update_one io c q u False now ts st0 = Inr (VNone, st')))"
proof -
  have quiet: "update_one io c q u False now ts st = Inr (VNone, st)"
    using assms by (simp add: update_one_def update_loop_no_match)
  have hit: "\<exists>st'. update_one io c q u False now ts st0 = Inr (VNone, st')"
    if "update_fields u = Inr s" "\<exists>d\<in>set (coll st0 c). doc_matches q d" for st0 s
  proof -
    from update_loop_match [OF that, of now]
    obtain ds' where "update_loop q u now (coll st0 c) = Inr (Some ds')" by blast
    then show ?thesis by (simp add: update_one_def)
  qed
  show ?thesis using quiet hit by blast
qed

theorem update_one_no_match_no_upsert_witness:
  "update_one io_ok ''c'' (fmupd ''a'' (VInt 2) fmempty) (fmupd ''b'' (VInt 3) fmempty) False ''t'' ''s''
      (store_of [fmupd ''a'' (VInt 1) fmempty])
     = Inr (VNone, store_of [fmupd ''a'' (VInt 1) fmempty])
   \<and> (\<exists>st'. update_one io_ok ''c'' (fmupd ''a'' (VInt 2) fmempty) (fmupd ''b'' (VInt 3) fmempty) False
               ''t'' ''s'' (store_of [fmupd ''a'' (VInt 2) fmempty])
            = Inr (VNone, st'))"
proof -
  have miss: "\<forall>d\<in>set (coll (store_of [fmupd ''a'' (VInt 1) fmempty]) ''c'').
      \<not> doc_matches (fmupd ''a'' (VInt 2) fmempty) d"
    by (simp add: store_of_def empty_storage_def coll_def doc_matches_def fmpred_iff doc_get_def)
  have fields: "update_fields (fmupd ''b'' (VInt 3) fmempty) = Inr (fmupd ''b'' (VInt 3) fmempty)"
    by (simp add: update_fields_def)
  have hit: "\<exists>d\<in>set (coll (store_of [fmupd ''a'' (VInt 2) fmempty]) ''c'').
      doc_matches (fmupd ''a'' (VInt 2) fmempty) d"
    by (simp add: store_of_def empty_storage_def coll_def doc_matches_def fmpred_iff doc_get_def)
  show ?thesis
    using update_one_no_match_no_upsert [OF miss, of io_ok "fmupd ''b'' (VInt 3) fmempty" "''t''" "''s''"]
      fields hit
    by blast
qed

subsection \<open>Insert and read back\<close>

text \<open>
  Claim C7, as the code has it. \<open>insert_one(d)\<close> stores \<open>d\<close> itself when \<open>d\<close> has an \<open>_id\<close>
  and \<open>d\<close> with a generated \<open>_id\<close> otherwise, appends it, and makes one flush (which
  leaves the file holding the new data when the write succeeds). If no document
  already in the collection carries that identifier, \<open>find_one\<close> on the identifier then
  returns a document equal to the stored one.
\<close>

theorem insert_one_roundtrip:
  assumes fresh: "\<forall>d\<in>set (coll st c).
      doc_get d ''_id'' \<noteq> doc_get (with_id document (length (coll st c)) ts) ''_id''"
  shows "let stored = with_id document (length (coll st c)) ts;
             st' = insert_one io c document ts st
         in (if ''_id'' |\<in>| fmdom document then stored = document
             else stored =
               fmupd ''_id'' (VStr (''doc_'' @ str_nat (length (coll st c) + 1) @ ''_'' @ ts)) document)
          \<and> coll st' c = coll st c @ [stored]
          \<and> io_calls st' = io_calls st + 1
          \<and> (io (io_calls st) = Written \<longrightarrow> backing_file st' = Saved (sdata st'))
          \<and> find_one c (fmupd ''_id'' (doc_get stored ''_id'') fmempty) st' = Some stored"
proof -
  let ?stored = "with_id document (length (coll st c)) ts"
  let ?q = "fmupd ''_id'' (doc_get ?stored ''_id'') fmempty"
  have miss: "\<forall>d\<in>set (coll st c). \<not> doc_matches ?q d"
    using fresh by (simp add: id_query_matches)
  have "find_first ?q (coll st c @ [?stored]) = find_first ?q [?stored]"
    using miss by (rule find_first_append_miss)
  then have found: "find_one c ?q (insert_one io c document ts st) = Some ?stored"
    by (simp add: find_one_def id_query_matches store_simps)
  have flushed: "io (io_calls st) = Written \<longrightarrow>
      backing_file (insert_one io c document ts st) = Saved (sdata (insert_one io c document ts st))"
    by (simp add: insert_one_def save_data_def)
  have calls: "io_calls (insert_one io c document ts st) = io_calls st + 1"
    by (simp add: store_simps insert_one_def)
  have ident: "if ''_id'' |\<in>| fmdom document then ?stored = document
             else ?stored =
               fmupd ''_id'' (VStr (''doc_'' @ str_nat (length (coll st c) + 1) @ ''_'' @ ts)) document"
    by (simp add: with_id_def)
  show ?thesis
    unfolding Let_def using found flushed calls ident by (simp add: store_simps)
qed

theorem insert_one_roundtrip_witness:
  "coll (insert_one io_ok ''c'' (fmupd ''name'' (VStr ''x'') fmempty) ''17.5'' empty_storage) ''c''
     = [fmupd ''_id'' (VStr ''doc_1_17.5'') (fmupd ''name'' (VStr ''x'') fmempty)]
   \<and> find_one ''c'' (fmupd ''_id'' (VStr ''doc_1_17.5'') fmempty)
        (insert_one io_ok ''c'' (fmupd ''name'' (VStr ''x'') fmempty) ''17.5'' empty_storage)
     = Some (fmupd ''_id'' (VStr ''doc_1_17.5'') (fmupd ''name'' (VStr ''x'') fmempty))
   \<and> backing_file (insert_one io_ok ''c'' (fmupd ''name'' (VStr ''x'') fmempty) ''17.5'' empty_storage)
     = Saved (sdata (insert_one io_ok ''c'' (fmupd ''name'' (VStr ''x'') fmempty) ''17.5'' empty_storage))"
proof -
  have e: "coll empty_storage ''c'' = []" by (simp add: coll_def empty_storage_def)
  have w: "with_id (fmupd ''name'' (VStr ''x'') fmempty) 0 ''17.5''
      = fmupd ''_id'' (VStr ''doc_1_17.5'') (fmupd ''name'' (VStr ''x'') fmempty)"
    by (simp add: with_id_def str_nat.simps)
  have i: "io_ok (io_calls empty_storage) = Written" by (simp add: io_ok_def)
  show ?thesis
    using insert_one_roundtrip [of empty_storage "''c''" "fmupd ''name'' (VStr ''x'') fmempty" "''17.5''" io_ok]
    by (simp add: e w i Let_def doc_get_def)
qed

text \<open>
  Without the condition the claim fails: \<open>insert_one\<close> does not look for the identifier,
  and \<open>find_one\<close> returns the first match, the older document.
\<close>

theorem insert_one_duplicate_id_counterexample:
  "find_one ''c'' (fmupd ''_id'' (VStr ''k'') fmempty)
     (insert_one io_ok ''c'' (fmupd ''v'' (VInt 2) (fmupd ''_id'' (VStr ''k'') fmempty)) ''17.5''
        (store_of [fmupd ''v'' (VInt 1) (fmupd ''_id'' (VStr ''k'') fmempty)]))
   = Some (fmupd ''v'' (VInt 1) (fmupd ''_id'' (VStr ''k'') fmempty))
   \<and> fmupd ''v'' (VInt 1) (fmupd ''_id'' (VStr ''k'') fmempty)
     \<noteq> fmupd ''v'' (VInt 2) (fmupd ''_id'' (VStr ''k'') fmempty)"
  by code_simp

subsection \<open>A query for None\<close>

text \<open>
  Claim C10. A document \<open>d\<close> that has no field \<open>k\<close> is matched by the query \<open>{k: None}\<close>;
  in a larger query a pair \<open>k: None\<close> puts no constraint on \<open>d\<close>; \<open>find_one\<close>, \<open>find\<close> and the
  loop of \<open>update_one\<close> all find a match in a collection that holds \<open>d\<close>, and \<open>find_one\<close>
  returns \<open>d\<close> itself when \<open>d\<close> comes first.
\<close>

theorem none_query_matches_absent_field:
  assumes absent: "fmlookup d k = None"
  shows "doc_matches (fmupd k VNone fmempty) d
       \<and> (fmlookup q k = Some VNone \<longrightarrow> doc_matches q d = doc_matches (fmdrop k q) d)
       \<and> (d \<in> set (coll st c) \<longrightarrow>
             find_one c (fmupd k VNone fmempty) st \<noteq> None
           \<and> d \<in> set (find_docs c (Some (fmupd k VNone fmempty)) st)
           \<and> update_loop (fmupd k VNone fmempty) u now (coll st c) \<noteq> Inr None)
       \<and> (coll st c = d # ds \<longrightarrow> find_one c (fmupd k VNone fmempty) st = Some d)"
proof -
  have m: "doc_matches (fmupd k VNone fmempty) d"
    using absent by (simp add: doc_matches_iff doc_get_def)
  have gen: "doc_matches q d = doc_matches (fmdrop k q) d" if "fmlookup q k = Some VNone"
  proof -
    have "doc_get d k = VNone" using absent by (simp add: doc_get_def)
    with that show ?thesis
      unfolding doc_matches_iff by (simp add: fmlookup_drop) (metis option.inject)
  qed
  have col: "find_one c (fmupd k VNone fmempty) st \<noteq> None
           \<and> d \<in> set (find_docs c (Some (fmupd k VNone fmempty)) st)
           \<and> update_loop (fmupd k VNone fmempty) u now (coll st c) \<noteq> Inr None"
    if "d \<in> set (coll st c)"
  proof -
    from that m have "find_first (fmupd k VNone fmempty) (coll st c) \<noteq> None"
      unfolding find_first_None_iff by blast
    moreover from that m have "update_loop (fmupd k VNone fmempty) u now (coll st c) \<noteq> Inr None"
      unfolding update_loop_None_iff by blast
    ultimately show ?thesis using that m by (simp add: find_one_def find_docs_def)
  qed
  have hd: "find_one c (fmupd k VNone fmempty) st = Some d" if "coll st c = d # ds"
    using that m by (simp add: find_one_def)
  show ?thesis using m gen col hd by blast
qed

theorem none_query_matches_absent_field_witness:
  "doc_matches (fmupd ''a'' VNone fmempty) (fmupd ''b'' (VInt 1) fmempty)
   \<and> doc_matches (fmupd ''b'' (VInt 1) (fmupd ''a'' VNone fmempty)) (fmupd ''b'' (VInt 1) fmempty)
   \<and> find_one ''c'' (fmupd ''a'' VNone fmempty) (store_of [fmupd ''b'' (VInt 1) fmempty])
       = Some (fmupd ''b'' (VInt 1) fmempty)
   \<and> fmupd ''b'' (VInt 1) fmempty
       \<in> set (find_docs ''c'' (Some (fmupd ''a'' VNone fmempty)) (store_of [fmupd ''b'' (VInt 1) fmempty]))
   \<and> update_loop (fmupd ''a'' VNone fmempty) fmempty ''n''
         (coll (store_of [fmupd ''b'' (VInt 1) fmempty]) ''c'') \<noteq> Inr None"
proof -
  have a: "fmlookup (fmupd ''b'' (VInt 1) fmempty) ''a'' = None" by simp
  have c: "coll (store_of [fmupd ''b'' (VInt 1) fmempty]) ''c'' = fmupd ''b'' (VInt 1) fmempty # []"
    by (simp add: store_of_def coll_def)
  then have m: "fmupd ''b'' (VInt 1) fmempty \<in> set (coll (store_of [fmupd ''b'' (VInt 1) fmempty]) ''c'')"
    by simp
  have q: "fmlookup (fmupd ''b'' (VInt 1) (fmupd ''a'' VNone fmempty)) ''a'' = Some VNone" by simp
  have rest: "doc_matches (fmdrop ''a'' (fmupd ''b'' (VInt 1) (fmupd ''a'' VNone fmempty)))
      (fmupd ''b'' (VInt 1) fmempty)"
    by (simp add: doc_matches_def fmpred_iff doc_get_def)
  note t = none_query_matches_absent_field [OF a, where q = "fmupd ''b'' (VInt 1) (fmupd ''a'' VNone fmempty)"
      and c = "''c''" and u = fmempty and now = "''n''" and ds = "[]"
      and st = "store_of [fmupd ''b'' (VInt 1) fmempty]"]
  from t c m q rest show ?thesis by blast
qed

subsection \<open>A flush that fails\<close>

lemma save_plan_outcome:
  "fst (save_plan fmt io plan_data now now' ts st)
   \<and> io_calls st < io_calls (snd (save_plan fmt io plan_data now now' ts st))
   \<and> (\<forall>n e. io_calls st \<le> n \<and> n < io_calls (snd (save_plan fmt io plan_data now now' ts st))
          \<and> (io n = OpenFails e \<or> io n = DumpFails e) \<longrightarrow>
        ''Could not save fallback storage: '' @ e
          \<in> set (errors (snd (save_plan fmt io plan_data now now' ts st))))
   \<and> find_one ''plans'' (fmupd ''_id'' (doc_get (plan_with_id fmt plan_data) ''_id'') fmempty)
        (snd (save_plan fmt io plan_data now now' ts st)) \<noteq> None"
proof -
  let ?c = "''plans''"
  let ?stg = "get_collection ?c st"
  let ?pd = "fmupd ''updated_at'' (VStr now) (plan_with_id fmt plan_data)"
  let ?v = "doc_get (plan_with_id fmt plan_data) ''_id''"
  let ?q = "fmupd ''_id'' ?v fmempty"
  let ?u = "fmupd ''$set'' (VDict ?pd) fmempty"
  have v: "doc_get ?pd ''_id'' = ?v" by (simp add: doc_get_def)
  have hasid: "''_id'' |\<in>| fmdom ?pd" using plan_with_id_has_id [of fmt plan_data] by simp
  have fields: "update_fields ?u = Inr ?pd" by (simp add: update_fields_def)
  have sp: "save_plan fmt io plan_data now now' ts st =
      (case update_one io ?c ?q ?u True now' ts ?stg of
         Inl e \<Rightarrow> (False, ?stg\<lparr>errors := errors ?stg @ [''Failed to save plan'']\<rparr>)
       | Inr (r, st') \<Rightarrow> (True, st'))"
    by (simp add: save_plan_def Let_def v)
  have merged: "doc_get (d ++\<^sub>f ?pd) ''_id'' = ?v" for d
    using hasid v by (simp add: doc_get_def)
  from update_one_cases [OF fields, of ?q now' ?stg ?c io True ts]
  consider
    (upd) ds' where "update_loop ?q ?u now' (coll ?stg ?c) = Inr (Some ds')"
      "update_one io ?c ?q ?u True now' ts ?stg
         = Inr (VNone, save_data io (?stg\<lparr>sdata := fmupd ?c ds' (sdata ?stg)\<rparr>))"
  | (ins) "update_loop ?q ?u now' (coll ?stg ?c) = Inr None"
      "update_one io ?c ?q ?u True now' ts ?stg
         = Inr (VNone, save_data io (insert_one io ?c (?q ++\<^sub>f ?pd) ts ?stg))"
    by blast
  then show ?thesis
  proof cases
    case upd
    let ?st' = "save_data io (?stg\<lparr>sdata := fmupd ?c ds' (sdata ?stg)\<rparr>)"
    have res: "save_plan fmt io plan_data now now' ts st = (True, ?st')"
      using sp upd(2) by simp
    from update_loop_Some_shape [OF fields upd(1)] obtain pre d post where
      shape: "\<forall>x\<in>set pre. \<not> doc_matches ?q x"
        "ds' = pre @ fmupd ''updated_at'' (VStr now') (d ++\<^sub>f ?pd) # post" by blast
    have "doc_matches ?q (fmupd ''updated_at'' (VStr now') (d ++\<^sub>f ?pd))"
      using merged [of d] by (simp add: id_query_matches doc_get_def)
    then have "find_first ?q ds' \<noteq> None"
      unfolding find_first_None_iff using shape(2) by auto
    then have found: "find_one ?c ?q ?st' \<noteq> None" by (simp add: find_one_def store_simps)
    have logged: "''Could not save fallback storage: '' @ e \<in> set (errors ?st')"
      if "io_calls st \<le> n" "n < io_calls ?st'" "io n = OpenFails e \<or> io n = DumpFails e" for n e
    proof -
      from that(1,2) have "n = io_calls st" by (simp add: store_simps)
      with that(3) show ?thesis
        using save_data_failure_logged [of io "?stg\<lparr>sdata := fmupd ?c ds' (sdata ?stg)\<rparr>" e] by (simp add: store_simps)
    qed
    have calls: "io_calls st < io_calls ?st'" by (simp add: store_simps)
    show ?thesis unfolding res using found logged calls by auto
  next
    case ins
    let ?st1 = "insert_one io ?c (?q ++\<^sub>f ?pd) ts ?stg"
    let ?st' = "save_data io ?st1"
    have res: "save_plan fmt io plan_data now now' ts st = (True, ?st')"
      using sp ins(2) by simp
    have "doc_matches ?q (?q ++\<^sub>f ?pd)"
      using merged [of ?q] by (simp add: id_query_matches)
    then have "doc_matches ?q (with_id (?q ++\<^sub>f ?pd) (length (coll ?stg ?c)) ts)"
      by (rule merged_matches)
    then have "find_first ?q (coll ?st' ?c) \<noteq> None"
      unfolding find_first_None_iff by (simp add: store_simps)
    then have found: "find_one ?c ?q ?st' \<noteq> None" by (simp add: find_one_def store_simps)
    have c1: "io_calls ?st1 = io_calls st + 1" by (simp add: store_simps insert_one_def)
    have first: "''Could not save fallback storage: '' @ e \<in> set (errors ?st1)"
      if "io (io_calls st) = OpenFails e \<or> io (io_calls st) = DumpFails e" for e
      unfolding insert_one_def
      using that save_data_failure_logged
        [of io "?stg\<lparr>sdata := fmupd ?c (coll ?stg ?c @ [with_id (?q ++\<^sub>f ?pd) (length (coll ?stg ?c)) ts]) (sdata ?stg)\<rparr>" e]
      by (simp add: store_simps)
    have logged: "''Could not save fallback storage: '' @ e \<in> set (errors ?st')"
      if "io_calls st \<le> n" "n < io_calls ?st'" "io n = OpenFails e \<or> io n = DumpFails e" for n e
    proof -
      have "io_calls ?st' = io_calls st + 2" using c1 by (simp add: store_simps)
      with that(1,2) c1 consider "n = io_calls st" | "n = io_calls ?st1" by fastforce
      then show ?thesis
      proof cases
        case 1
        with that(3) first [of e] errors_save_data_mono [of ?st1 io] show ?thesis by blast
      next
        case 2
        with that(3) save_data_failure_logged [of io ?st1 e] show ?thesis by simp
      qed
    qed
    have calls: "io_calls st < io_calls ?st'" by (simp add: store_simps insert_one_def)
    show ?thesis unfolding res using found logged calls by auto
  qed
qed

lemma update_loop_split:
  assumes "update_fields u = Inr s" "\<forall>x\<in>set pre. \<not> doc_matches q x" "doc_matches q d"
  shows "update_loop q u now (pre @ d # post)
           = Inr (Some (pre @ fmupd ''updated_at'' (VStr now) (d ++\<^sub>f s) # post))"
  using assms(2)
proof (induction pre)
  case Nil
  then show ?case using assms(1,3) by simp
next
  case (Cons a pre)
  then show ?case by simp
qed

lemma update_one_match_exact:
  assumes "update_fields u = Inr s" "coll st c = pre @ d # post"
    "\<forall>x\<in>set pre. \<not> doc_matches q x" "doc_matches q d"
  shows "update_one io c q u upsert now ts st =
           Inr (VNone, save_data io
             (st\<lparr>sdata := fmupd c (pre @ fmupd ''updated_at'' (VStr now) (d ++\<^sub>f s) # post) (sdata st)\<rparr>))"
  using update_loop_split [OF assms(1,3,4), of now post] assms(2)
  by (simp add: update_one_def)

lemma update_one_upsert_exact:
  assumes "update_fields u = Inr s" "\<forall>x\<in>set (coll st c). \<not> doc_matches q x"
  shows "update_one io c q u True now ts st =
           Inr (VNone, save_data io (insert_one io c (q ++\<^sub>f s) ts st))"
  using assms by (simp add: update_one_def update_loop_no_match)

lemma sdata_insert_one:
  "sdata (insert_one io c document ts st)
     = fmupd c (coll st c @ [with_id document (length (coll st c)) ts]) (sdata st)"
  by (simp add: insert_one_def sdata_save_data)

lemma update_one_io_free:
  "map_sum id (map_prod id sdata) (update_one io c q u upsert now ts st)
     = map_sum id (map_prod id sdata) (update_one io' c q u upsert now ts st)"
  by (simp add: update_one_def sdata_save_data sdata_insert_one split: sum.splits option.splits)

lemma insert_one_failure_logged:
  "io (io_calls st) = OpenFails e \<or> io (io_calls st) = DumpFails e \<Longrightarrow>
   ''Could not save fallback storage: '' @ e \<in> set (errors (insert_one io c document ts st))"
  unfolding insert_one_def
  using save_data_failure_logged
    [of io "st\<lparr>sdata := fmupd c (coll st c @ [with_id document (length (coll st c)) ts]) (sdata st)\<rparr>" e]
  by simp

lemma plan_query_merge:
  "fmupd ''_id'' (doc_get (plan_with_id fmt pd) ''_id'') fmempty
       ++\<^sub>f fmupd ''updated_at'' (VStr now) (plan_with_id fmt pd)
     = fmupd ''updated_at'' (VStr now) (plan_with_id fmt pd)"
proof (rule fmap_ext)
  fix k
  have "''_id'' |\<in>| fmdom (plan_with_id fmt pd)" by (rule plan_with_id_has_id)
  then obtain v where "fmlookup (plan_with_id fmt pd) ''_id'' = Some v"
    by (auto simp: fmlookup_dom_iff)
  then show "fmlookup (fmupd ''_id'' (doc_get (plan_with_id fmt pd) ''_id'') fmempty
       ++\<^sub>f fmupd ''updated_at'' (VStr now) (plan_with_id fmt pd)) k
     = fmlookup (fmupd ''updated_at'' (VStr now) (plan_with_id fmt pd)) k"
    by (auto simp: doc_get_def fmlookup_dom_iff)
qed

lemma save_plan_unfold:
  "save_plan fmt io plan_data now now' ts st =
     (case update_one io ''plans''
             (fmupd ''_id'' (doc_get (plan_with_id fmt plan_data) ''_id'') fmempty)
             (fmupd ''$set'' (VDict (fmupd ''updated_at'' (VStr now) (plan_with_id fmt plan_data))) fmempty)
             True now' ts (get_collection ''plans'' st) of
        Inl e \<Rightarrow> (False, (get_collection ''plans'' st)
                   \<lparr>errors := errors (get_collection ''plans'' st) @ [''Failed to save plan'']\<rparr>)
      | Inr (r, st') \<Rightarrow> (True, st'))"
  by (simp add: save_plan_def Let_def doc_get_def)

lemma save_plan_no_match:
  assumes "\<forall>d\<in>set (coll st ''plans'').
      \<not> doc_matches (fmupd ''_id'' (doc_get (plan_with_id fmt plan_data) ''_id'') fmempty) d"
  shows "save_plan fmt io plan_data now now' ts st =
     (True, save_data io (insert_one io ''plans''
        (fmupd ''updated_at'' (VStr now) (plan_with_id fmt plan_data)) ts (get_collection ''plans'' st)))"
proof -
  let ?q = "fmupd ''_id'' (doc_get (plan_with_id fmt plan_data) ''_id'') fmempty"
  let ?pd = "fmupd ''updated_at'' (VStr now) (plan_with_id fmt plan_data)"
  have fields: "update_fields (fmupd ''$set'' (VDict ?pd) fmempty) = Inr ?pd"
    by (simp add: update_fields_def)
  have miss: "\<forall>x\<in>set (coll (get_collection ''plans'' st) ''plans''). \<not> doc_matches ?q x"
    using assms by (simp add: coll_get_collection)
  from update_one_upsert_exact [OF fields miss, of io now' ts]
  have "update_one io ''plans'' ?q (fmupd ''$set'' (VDict ?pd) fmempty) True now' ts
          (get_collection ''plans'' st)
      = Inr (VNone, save_data io (insert_one io ''plans'' ?pd ts (get_collection ''plans'' st)))"
    by (simp only: plan_query_merge)
  then show ?thesis by (simp only: save_plan_unfold sum.case prod.case)
qed

lemma save_plan_match:
  assumes "coll st ''plans'' = pre @ d # post"
    "\<forall>x\<in>set pre. \<not> doc_matches (fmupd ''_id'' (doc_get (plan_with_id fmt plan_data) ''_id'') fmempty) x"
    "doc_matches (fmupd ''_id'' (doc_get (plan_with_id fmt plan_data) ''_id'') fmempty) d"
  shows "save_plan fmt io plan_data now now' ts st =
     (True, save_data io ((get_collection ''plans'' st)
        \<lparr>sdata := fmupd ''plans''
           (pre @ fmupd ''updated_at'' (VStr now')
                    (d ++\<^sub>f fmupd ''updated_at'' (VStr now) (plan_with_id fmt plan_data)) # post)
           (sdata (get_collection ''plans'' st))\<rparr>))"
proof -
  let ?pd = "fmupd ''updated_at'' (VStr now) (plan_with_id fmt plan_data)"
  have fields: "update_fields (fmupd ''$set'' (VDict ?pd) fmempty) = Inr ?pd"
    by (simp add: update_fields_def)
  have c: "coll (get_collection ''plans'' st) ''plans'' = pre @ d # post"
    using assms(1) by (simp add: coll_get_collection)
  from update_one_match_exact [OF fields c assms(2,3), of io True now' ts]
  show ?thesis by (simp add: save_plan_unfold)
qed

lemma sdata_get_collection_upd:
  "fmupd c ds (sdata (get_collection c st)) = fmupd c ds (sdata st)"
  by (simp add: get_collection_def)

lemma save_plan_io_free:
  "map_prod id sdata (save_plan fmt io plan_data now now' ts st)
     = map_prod id sdata (save_plan fmt io' plan_data now now' ts st)"
proof -
  let ?q = "fmupd ''_id'' (doc_get (plan_with_id fmt plan_data) ''_id'') fmempty"
  let ?u = "fmupd ''$set'' (VDict (fmupd ''updated_at'' (VStr now) (plan_with_id fmt plan_data))) fmempty"
  let ?stg = "get_collection ''plans'' st"
  from update_one_io_free [of io "''plans''" ?q ?u True now' ts ?stg io']
  show ?thesis
    by (cases "update_one io ''plans'' ?q ?u True now' ts ?stg";
        cases "update_one io' ''plans'' ?q ?u True now' ts ?stg")
       (auto simp: save_plan_unfold)
qed

text \<open>
  Claim C9, as the code has it. A flush that fails is caught and logged inside the
  flush, and nobody is told. Of \<open>save_plan\<close> in fallback mode: it returns \<open>True\<close>
  whatever the flushes meet; it attempts at least one flush; every flush of the call
  that fails leaves its line in the error log; what it returns and the in-memory data
  it leaves are the same as with flushes that succeed, namely the plan appended when no
  stored document has its identifier, and merged into the first one that has it (and
  stamped) otherwise. Of \<open>insert_one\<close>: the document is appended in memory whatever the
  flush meets, and a failed flush is logged. Of \<open>update_one\<close>: whether it raises, what
  it returns and the in-memory data it leaves do not depend on the flushes, and the
  first matching document is merged and stamped in memory whatever they meet.
\<close>

theorem save_plan_flush_failure:
  "fst (save_plan fmt io plan_data now now' ts st)
   \<and> io_calls st < io_calls (snd (save_plan fmt io plan_data now now' ts st))
   \<and> (\<forall>n e. io_calls st \<le> n \<and> n < io_calls (snd (save_plan fmt io plan_data now now' ts st))
          \<and> (io n = OpenFails e \<or> io n = DumpFails e) \<longrightarrow>
        ''Could not save fallback storage: '' @ e
          \<in> set (errors (snd (save_plan fmt io plan_data now now' ts st))))
   \<and> find_one ''plans'' (fmupd ''_id'' (doc_get (plan_with_id fmt plan_data) ''_id'') fmempty)
        (snd (save_plan fmt io plan_data now now' ts st)) \<noteq> None
   \<and> map_prod id sdata (save_plan fmt io plan_data now now' ts st)
       = map_prod id sdata (save_plan fmt io' plan_data now now' ts st)
   \<and> ((\<forall>x\<in>set (coll st ''plans'').
          \<not> doc_matches (fmupd ''_id'' (doc_get (plan_with_id fmt plan_data) ''_id'') fmempty) x) \<longrightarrow>
        sdata (snd (save_plan fmt io plan_data now now' ts st))
          = fmupd ''plans''
              (coll st ''plans'' @ [fmupd ''updated_at'' (VStr now) (plan_with_id fmt plan_data)])
              (sdata st))
   \<and> (\<forall>pre d post.
         coll st ''plans'' = pre @ d # post
         \<and> (\<forall>x\<in>set pre.
              \<not> doc_matches (fmupd ''_id'' (doc_get (plan_with_id fmt plan_data) ''_id'') fmempty) x)
         \<and> doc_matches (fmupd ''_id'' (doc_get (plan_with_id fmt plan_data) ''_id'') fmempty) d \<longrightarrow>
        sdata (snd (save_plan fmt io plan_data now now' ts st))
          = fmupd ''plans''
              (pre @ fmupd ''updated_at'' (VStr now')
                       (d ++\<^sub>f fmupd ''updated_at'' (VStr now) (plan_with_id fmt plan_data)) # post)
              (sdata st))
   \<and> sdata (insert_one io c document ts st)
       = fmupd c (coll st c @ [with_id document (length (coll st c)) ts]) (sdata st)
   \<and> (\<forall>e. io (io_calls st) = OpenFails e \<or> io (io_calls st) = DumpFails e \<longrightarrow>
        ''Could not save fallback storage: '' @ e \<in> set (errors (insert_one io c document ts st)))
   \<and> map_sum id (map_prod id sdata) (update_one io c q u upsert now ts st)
       = map_sum id (map_prod id sdata) (update_one io' c q u upsert now ts st)
   \<and> (\<forall>s pre d post.
         update_fields u = Inr s \<and> coll st c = pre @ d # post
         \<and> (\<forall>x\<in>set pre. \<not> doc_matches q x) \<and> doc_matches q d \<longrightarrow>
        update_one io c q u upsert now ts st =
          Inr (VNone, save_data io
            (st\<lparr>sdata := fmupd c (pre @ fmupd ''updated_at'' (VStr now) (d ++\<^sub>f s) # post) (sdata st)\<rparr>)))
   \<and> sdata (save_data io st) = sdata st"
proof -
  note core = save_plan_outcome [of fmt io plan_data now now' ts st]
  have nomatch: "sdata (snd (save_plan fmt io plan_data now now' ts st))
          = fmupd ''plans''
              (coll st ''plans'' @ [fmupd ''updated_at'' (VStr now) (plan_with_id fmt plan_data)])
              (sdata st)"
    if "\<forall>x\<in>set (coll st ''plans'').
          \<not> doc_matches (fmupd ''_id'' (doc_get (plan_with_id fmt plan_data) ''_id'') fmempty) x"
  proof -
    have "''_id'' |\<in>| fmdom (fmupd ''updated_at'' (VStr now) (plan_with_id fmt plan_data))"
      using plan_with_id_has_id [of fmt plan_data] by simp
    then have "with_id (fmupd ''updated_at'' (VStr now) (plan_with_id fmt plan_data)) n ts
        = fmupd ''updated_at'' (VStr now) (plan_with_id fmt plan_data)" for n
      by (simp add: with_id_def)
    then show ?thesis
      using save_plan_no_match [OF that, of io now now' ts]
      by (simp add: sdata_save_data sdata_insert_one coll_get_collection sdata_get_collection_upd)
  qed
  have match: "sdata (snd (save_plan fmt io plan_data now now' ts st))
          = fmupd ''plans''
              (pre @ fmupd ''updated_at'' (VStr now')
                       (d ++\<^sub>f fmupd ''updated_at'' (VStr now) (plan_with_id fmt plan_data)) # post)
              (sdata st)"
    if "coll st ''plans'' = pre @ d # post"
      "\<forall>x\<in>set pre.
          \<not> doc_matches (fmupd ''_id'' (doc_get (plan_with_id fmt plan_data) ''_id'') fmempty) x"
      "doc_matches (fmupd ''_id'' (doc_get (plan_with_id fmt plan_data) ''_id'') fmempty) d"
    for pre d post
    using save_plan_match [OF that, of io now now' ts]
    by (simp add: sdata_save_data sdata_get_collection_upd)
  have upd: "update_one io c q u upsert now ts st =
          Inr (VNone, save_data io
            (st\<lparr>sdata := fmupd c (pre @ fmupd ''updated_at'' (VStr now) (d ++\<^sub>f s) # post) (sdata st)\<rparr>))"
    if "update_fields u = Inr s" "coll st c = pre @ d # post"
      "\<forall>x\<in>set pre. \<not> doc_matches q x" "doc_matches q d" for s pre d post
    using that by (rule update_one_match_exact)
  show ?thesis
    using core nomatch match upd
      save_plan_io_free [of fmt io plan_data now now' ts st io']
      sdata_insert_one [of io c document ts st]
      insert_one_failure_logged [of io st _ c document ts]
      update_one_io_free [of io c q u upsert now ts st io']
      sdata_save_data [of io st]
    by blast
qed

theorem save_plan_flush_failure_witness:
  "fst (save_plan (\<lambda>v. ''?'') io_disk_full (fmupd ''_id'' (VStr ''p1'') fmempty) ''n'' ''n2'' ''17.5''
          empty_storage)
   \<and> ''Could not save fallback storage: disk full''
       \<in> set (errors (snd (save_plan (\<lambda>v. ''?'') io_disk_full (fmupd ''_id'' (VStr ''p1'') fmempty)
                              ''n'' ''n2'' ''17.5'' empty_storage)))
   \<and> sdata (snd (save_plan (\<lambda>v. ''?'') io_disk_full (fmupd ''_id'' (VStr ''p1'') fmempty)
                   ''n'' ''n2'' ''17.5'' empty_storage))
       = fmupd ''plans'' [fmupd ''updated_at'' (VStr ''n'') (fmupd ''_id'' (VStr ''p1'') fmempty)] fmempty
   \<and> sdata (snd (save_plan (\<lambda>v. ''?'') io_disk_full (fmupd ''_id'' (VStr ''p1'') fmempty)
                   ''n'' ''n2'' ''17.5''
                   (plans_of [fmupd ''v'' (VInt 1) (fmupd ''_id'' (VStr ''p1'') fmempty)])))
       = fmupd ''plans''
           [fmupd ''updated_at'' (VStr ''n2'')
              (fmupd ''v'' (VInt 1) (fmupd ''_id'' (VStr ''p1'') fmempty)
                 ++\<^sub>f fmupd ''updated_at'' (VStr ''n'') (fmupd ''_id'' (VStr ''p1'') fmempty))]
           fmempty
   \<and> ''Could not save fallback storage: disk full''
       \<in> set (errors (insert_one io_disk_full ''c'' (fmupd ''a'' (VInt 1) fmempty) ''17.5'' empty_storage))
   \<and> update_one io_disk_full ''c'' (fmupd ''a'' (VInt 1) fmempty)
         (fmupd ''$set'' (VDict (fmupd ''b'' (VInt 2) fmempty)) fmempty) False ''n'' ''17.5''
         (store_of [fmupd ''a'' (VInt 1) fmempty])
       = Inr (VNone, save_data io_disk_full
           ((store_of [fmupd ''a'' (VInt 1) fmempty])
              \<lparr>sdata := fmupd ''c''
                 [fmupd ''updated_at'' (VStr ''n'') (fmupd ''a'' (VInt 1) fmempty ++\<^sub>f fmupd ''b'' (VInt 2) fmempty)]
                 (sdata (store_of [fmupd ''a'' (VInt 1) fmempty]))\<rparr>))"
proof -
  let ?P = "fmupd ''_id'' (VStr ''p1'') fmempty"
  let ?D = "fmupd ''v'' (VInt 1) (fmupd ''_id'' (VStr ''p1'') fmempty)"
  let ?S = "plans_of [?D]"
  let ?R = "save_plan (\<lambda>v. ''?'') io_disk_full ?P ''n'' ''n2'' ''17.5'' empty_storage"
  have pid: "plan_with_id (\<lambda>v. ''?'') ?P = ?P" by (simp add: plan_with_id_def)
  note t = save_plan_flush_failure [where fmt = "\<lambda>v. ''?''" and io = io_disk_full
      and plan_data = ?P and now = "''n''" and now' = "''n2''"
      and ts = "''17.5''" and st = empty_storage and c = "''c''"
      and document = "fmupd ''a'' (VInt 1) fmempty"]
  note t2 = save_plan_flush_failure [where fmt = "\<lambda>v. ''?''" and io = io_disk_full
      and plan_data = ?P and now = "''n''" and now' = "''n2''"
      and ts = "''17.5''" and st = ?S]
  note t3 = save_plan_flush_failure [where io = io_disk_full and st = "store_of [fmupd ''a'' (VInt 1) fmempty]"
      and c = "''c''" and q = "fmupd ''a'' (VInt 1) fmempty"
      and u = "fmupd ''$set'' (VDict (fmupd ''b'' (VInt 2) fmempty)) fmempty" and upsert = False
      and now = "''n''" and ts = "''17.5''"]
  have z: "io_calls empty_storage = 0" by (simp add: empty_storage_def)
  have f: "io_disk_full 0 = OpenFails ''disk full''" by (simp add: io_disk_full_def)
  from t have ok: "fst ?R" by blast
  from t have pos: "io_calls empty_storage < io_calls (snd ?R)" by blast
  from t have "io_calls empty_storage \<le> 0 \<and> 0 < io_calls (snd ?R)
      \<and> (io_disk_full 0 = OpenFails ''disk full'' \<or> io_disk_full 0 = DumpFails ''disk full'')
    \<longrightarrow> ''Could not save fallback storage: '' @ ''disk full'' \<in> set (errors (snd ?R))"
    by blast
  with z f pos have lg: "''Could not save fallback storage: '' @ ''disk full'' \<in> set (errors (snd ?R))"
    by simp
  have empty: "\<forall>x\<in>set (coll empty_storage ''plans'').
      \<not> doc_matches (fmupd ''_id'' (doc_get (plan_with_id (\<lambda>v. ''?'') ?P) ''_id'') fmempty) x"
    by (simp add: coll_def empty_storage_def)
  from t empty have "sdata (snd ?R) = fmupd ''plans''
      (coll empty_storage ''plans'' @ [fmupd ''updated_at'' (VStr ''n'') (plan_with_id (\<lambda>v. ''?'') ?P)])
      (sdata empty_storage)"
    by blast
  then have app: "sdata (snd ?R) = fmupd ''plans'' [fmupd ''updated_at'' (VStr ''n'') ?P] fmempty"
    by (simp add: pid coll_def empty_storage_def)
  have hit: "coll ?S ''plans'' = [] @ ?D # []
      \<and> (\<forall>x\<in>set []. \<not> doc_matches (fmupd ''_id'' (doc_get (plan_with_id (\<lambda>v. ''?'') ?P) ''_id'') fmempty) x)
      \<and> doc_matches (fmupd ''_id'' (doc_get (plan_with_id (\<lambda>v. ''?'') ?P) ''_id'') fmempty) ?D"
    by (simp add: pid plans_of_def coll_def doc_matches_def fmpred_iff doc_get_def)
  from t2 hit have "sdata (snd (save_plan (\<lambda>v. ''?'') io_disk_full ?P ''n'' ''n2'' ''17.5'' ?S))
      = fmupd ''plans''
          ([] @ fmupd ''updated_at'' (VStr ''n2'')
                  (?D ++\<^sub>f fmupd ''updated_at'' (VStr ''n'') (plan_with_id (\<lambda>v. ''?'') ?P)) # [])
          (sdata ?S)"
    by blast
  then have mrg: "sdata (snd (save_plan (\<lambda>v. ''?'') io_disk_full ?P ''n'' ''n2'' ''17.5'' ?S))
      = fmupd ''plans'' [fmupd ''updated_at'' (VStr ''n2'') (?D ++\<^sub>f fmupd ''updated_at'' (VStr ''n'') ?P)]
          fmempty"
    by (simp add: pid plans_of_def)
  from t z f have ins: "''Could not save fallback storage: '' @ ''disk full''
      \<in> set (errors (insert_one io_disk_full ''c'' (fmupd ''a'' (VInt 1) fmempty) ''17.5'' empty_storage))"
    by simp
  have uf: "update_fields (fmupd ''$set'' (VDict (fmupd ''b'' (VInt 2) fmempty)) fmempty)
      = Inr (fmupd ''b'' (VInt 2) fmempty)"
    by (simp add: update_fields_def)
  have uhit: "coll (store_of [fmupd ''a'' (VInt 1) fmempty]) ''c'' = [] @ fmupd ''a'' (VInt 1) fmempty # []
      \<and> (\<forall>x\<in>set []. \<not> doc_matches (fmupd ''a'' (VInt 1) fmempty) x)
      \<and> doc_matches (fmupd ''a'' (VInt 1) fmempty) (fmupd ''a'' (VInt 1) fmempty)"
    by (simp add: store_of_def coll_def doc_matches_def fmpred_iff doc_get_def)
  from t3 uf uhit have "update_one io_disk_full ''c'' (fmupd ''a'' (VInt 1) fmempty)
         (fmupd ''$set'' (VDict (fmupd ''b'' (VInt 2) fmempty)) fmempty) False ''n'' ''17.5''
         (store_of [fmupd ''a'' (VInt 1) fmempty])
       = Inr (VNone, save_data io_disk_full
           ((store_of [fmupd ''a'' (VInt 1) fmempty])
              \<lparr>sdata := fmupd ''c''
                 ([] @ fmupd ''updated_at'' (VStr ''n'') (fmupd ''a'' (VInt 1) fmempty ++\<^sub>f fmupd ''b'' (VInt 2) fmempty) # [])
                 (sdata (store_of [fmupd ''a'' (VInt 1) fmempty]))\<rparr>))"
    by blast
  then have up: "update_one io_disk_full ''c'' (fmupd ''a'' (VInt 1) fmempty)
         (fmupd ''$set'' (VDict (fmupd ''b'' (VInt 2) fmempty)) fmempty) False ''n'' ''17.5''
         (store_of [fmupd ''a'' (VInt 1) fmempty])
       = Inr (VNone, save_data io_disk_full
           ((store_of [fmupd ''a'' (VInt 1) fmempty])
              \<lparr>sdata := fmupd ''c''
                 [fmupd ''updated_at'' (VStr ''n'') (fmupd ''a'' (VInt 1) fmempty ++\<^sub>f fmupd ''b'' (VInt 2) fmempty)]
                 (sdata (store_of [fmupd ''a'' (VInt 1) fmempty]))\<rparr>))"
    by simp
  from ok lg app mrg ins up show ?thesis by simp
qed

text \<open>
  The claim as written promises \<open>False\<close> on a failed write. With every \<open>open\<close> failing,
  \<open>save_plan({"_id": "p1"})\<close> on an empty storage logs both failed flushes and returns
  \<open>True\<close>.
\<close>

theorem save_plan_true_on_failure_counterexample:
  "save_plan (\<lambda>v. ''?'') io_disk_full (fmupd ''_id'' (VStr ''p1'') fmempty) ''n'' ''n2'' ''17.5'' empty_storage
   = (True,
      \<lparr>sdata = fmupd ''plans'' [fmupd ''updated_at'' (VStr ''n'') (fmupd ''_id'' (VStr ''p1'') fmempty)] fmempty,
       backing_file = Absent, io_calls = 2,
       errors = [''Could not save fallback storage: disk full'', ''Could not save fallback storage: disk full'']\<rparr>)"
  by code_simp

subsection \<open>Who shares a stored document\<close>

text \<open>
  The object-level \<open>find_one\<close> returns what the value-level one does, and the object it
  returns is a new one: assigning to a field of it leaves the stored documents alone.
\<close>

lemma find_first_ref_content:
  "map_option ((!) h) (find_first_ref h q as) = find_first q (map ((!) h) as)"
  by (induction as) auto

lemma find_one_ref_refines:
  "map_option ((!) (heap (snd (find_one_ref q rc)))) (fst (find_one_ref q rc)) = find_first q (contents rc)"
  using find_first_ref_content [of "heap rc" q "rdata rc"]
  by (auto simp: find_one_ref_def contents_def split: option.splits)

lemma contents_append:
  "wf_refs rc \<Longrightarrow> contents (rc\<lparr>heap := heap rc @ hs\<rparr>) = contents rc"
  by (auto simp: contents_def wf_refs_def list_all_iff nth_append)

lemma find_one_ref_isolated:
  assumes "wf_refs rc" "find_one_ref q rc = (Some a, rc')"
  shows "contents (setitem a key v rc') = contents rc"
proof -
  from assms(2) obtain b where b: "find_first_ref (heap rc) q (rdata rc) = Some b"
    "a = length (heap rc)" "rc' = rc\<lparr>heap := heap rc @ [heap rc ! b]\<rparr>"
    by (auto simp: find_one_ref_def split: option.splits)
  have "a \<notin> set (rdata rc)" using assms(1) b(2) by (auto simp: wf_refs_def list_all_iff)
  then have "contents (setitem a key v rc') = contents rc'"
    using b(3) by (auto simp: contents_def setitem_def) (metis nth_list_update_neq)
  also have "\<dots> = contents rc" using contents_append [OF assms(1)] b(3) by simp
  finally show ?thesis .
qed

text \<open>
  So is every object \<open>find\<close> returns when it is given a query: they are all allocated
  after the stored ones.
\<close>

lemma copy_matching_fresh:
  "copy_matching q as h = (rs, h') \<Longrightarrow>
   (\<exists>hs. h' = h @ hs) \<and> (\<forall>a\<in>set rs. length h \<le> a \<and> a < length h')"
proof (induction as arbitrary: h rs h')
  case Nil
  then show ?case by simp
next
  case (Cons a as)
  show ?case
  proof (cases "doc_matches q (h ! a)")
    case True
    obtain rs0 h0 where r: "copy_matching q as (h @ [h ! a]) = (rs0, h0)"
      by (cases "copy_matching q as (h @ [h ! a])")
    with True Cons.prems have eq: "rs = length h # rs0" "h' = h0" by simp_all
    from Cons.IH [OF r] obtain hs where
      hs: "h0 = (h @ [h ! a]) @ hs" and fr: "\<forall>x\<in>set rs0. length (h @ [h ! a]) \<le> x \<and> x < length h0"
      by blast
    have "\<exists>hs'. h' = h @ hs'" using hs eq(2) by simp
    moreover have "\<forall>x\<in>set rs. length h \<le> x \<and> x < length h'"
      using fr hs eq by auto
    ultimately show ?thesis by blast
  next
    case False
    with Cons.prems have "copy_matching q as h = (rs, h')" by simp
    then show ?thesis by (rule Cons.IH)
  qed
qed

lemma find_ref_query_isolated:
  assumes "wf_refs rc" "find_ref (Some q) rc = (rs, rc')" "a \<in> set rs"
  shows "contents (setitem a key v rc') = contents rc"
proof -
  obtain rs0 h0 where c: "copy_matching q (rdata rc) (heap rc) = (rs0, h0)"
    by (cases "copy_matching q (rdata rc) (heap rc)")
  with assms(2) have eq: "rs = rs0" "rc' = rc\<lparr>heap := h0\<rparr>"
    by (simp_all add: find_ref_def)
  from copy_matching_fresh [OF c] obtain hs where
    hs: "h0 = heap rc @ hs" and fr: "\<forall>x\<in>set rs0. length (heap rc) \<le> x \<and> x < length h0"
    by blast
  have "length (heap rc) \<le> a"
    using assms(3) fr eq(1) by blast
  moreover have "\<forall>x\<in>set (rdata rc). x < length (heap rc)"
    using assms(1) by (simp add: wf_refs_def list_all_iff)
  ultimately have "a \<notin> set (rdata rc)" by fastforce
  then have "contents (setitem a key v rc') = contents rc'"
    using eq(2) by (auto simp: contents_def setitem_def) (metis nth_list_update_neq)
  also have "\<dots> = contents rc"
    using contents_append [OF assms(1)] eq(2) hs by simp
  finally show ?thesis .
qed

text \<open>
  Claim C3 at the failing input. The collection holds \<open>{"a": 1}\<close>. \<open>find_one({"a": 1})\<close>
  returns a copy of it at a new address. \<open>find()\<close> with no query returns the stored
  address itself; after \<open>docs[0]["a"] = 2\<close> on that result, \<open>find_one({"a": 1})\<close> finds
  nothing.
\<close>

theorem find_all_aliases_stored_documents:
  "fst (find_one_ref (fmupd ''a'' (VInt 1) fmempty) rc_one) = Some 1
   \<and> heap (snd (find_one_ref (fmupd ''a'' (VInt 1) fmempty) rc_one)) ! 1 = fmupd ''a'' (VInt 1) fmempty
   \<and> fst (find_ref None rc_one) = [0]
   \<and> fst (find_one_ref (fmupd ''a'' (VInt 1) fmempty)
            (setitem (hd (fst (find_ref None rc_one))) ''a'' (VInt 2) (snd (find_ref None rc_one))))
       = None"
  by (simp add: find_one_ref_def find_ref_def setitem_def rc_one_def doc_matches_def fmpred_iff doc_get_def)

section \<open>Facts about the scheduler\<close>

subsection \<open>One run of a job\<close>




subsection \<open>Registration\<close>

text \<open>
  Claim C4, as the code has it. \<open>add_job\<close> checks nothing: whatever the interval, zero
  and negative ones included, the job list grows by one job with that interval.
\<close>

theorem add_job_registers_any_interval:
  "length (tasks (add_job fadd f seconds ident now s)) = length (tasks s) + 1
   \<and> interval (last (tasks (add_job fadd f seconds ident now s))) = seconds
   \<and> seconds \<in> set (map interval (tasks (add_job fadd f seconds ident now s)))"
  by (simp add: add_job_def)

text \<open>After registering with interval 0 the job list has a job with interval 0.\<close>

theorem add_job_zero_interval_counterexample:
  "0 \<in> set (map interval
       (tasks (add_job exact_add (\<lambda>t. Returns) 0 (Some ''tick'') 1000 (new_scheduler 990))))"
  by (simp add: add_job_def new_scheduler_def)




text \<open>
  A positive interval does not keep the job from being due either, once the sum is
  rounded: registered at 1800000000 with the interval \<open>1 / 2 ^ 24\<close> (both doubles, the
  sum a quarter of the way to the next double), the job has \<open>next_run = now\<close>.
\<close>

lemma grid_add_absorbs: "grid_add (1 / 2 ^ 22) 1800000000 (1 / 2 ^ 24) = 1800000000"
proof -
  have "(1800000000 + 1 / 2 ^ 24) / (1 / 2 ^ 22) = (7549747200000000 + 1 / 4 :: real)"
    by simp
  moreover have "round (7549747200000000 + 1 / 4 :: real) = 7549747200000000"
    by (simp add: round_def)
  ultimately show ?thesis by (simp add: grid_add_def)
qed

lemma add_job_small_interval_due:
  "0 < (1 / 2 ^ 24 :: real)
   \<and> due 1800000000
        (last (tasks (add_job (grid_add (1 / 2 ^ 22)) f (1 / 2 ^ 24) ident 1800000000 s)))"
  using grid_add_absorbs by (simp add: add_job_def due_def)

subsection \<open>A batch with failing jobs\<close>







lemma run_job_keeps: "func (fst (run_job fadd clock j rt)) = func j
    \<and> job_id (fst (run_job fadd clock j rt)) = job_id j
    \<and> enabled (fst (run_job fadd clock j rt)) = enabled j"
  by (simp add: run_job_def Let_def split: outcome.splits)










end
